theory Spec2Isabelle
  imports Main
begin

section \<open>Values of the host language\<close>

text \<open>
  The hook handles Go values of type \<^verbatim>\<open>interface{}\<close>: the values of a log entry's
  fields, the fields of a point and the cells of a query response. The model keeps the
  dynamic types the code tests for (\<^verbatim>\<open>string\<close>, \<^verbatim>\<open>*http.Request\<close>), the nil interface,
  a field mapping (\<^verbatim>\<open>map[string]interface{}\<close>) and two other types that stand for
  every value that is neither a string nor a request. A request is known by its address;
  \<open>RequestV None\<close> is the nil pointer of type \<^verbatim>\<open>*http.Request\<close>. Reading a nil map gives
  what reading an empty map gives, so a field mapping is a partial function.
\<close>

type_synonym request = nat

datatype val =
    NilV
  | StringV string
  | IntV int
  | BoolV bool
  | RequestV "request option"
  | FieldsV "string \<Rightarrow> val option"

text \<open>
  A Go \<^verbatim>\<open>error\<close> value has a dynamic type and a text. \<^verbatim>\<open>errors.New\<close> builds a value of
  type \<^verbatim>\<open>*errors.errorString\<close>; the errors of the database client have whatever type
  the client gives them.
\<close>

datatype error = GoError (dynamic_type: string) (error_text: string)

definition errors_New :: "string \<Rightarrow> error" where
  "errors_New text = GoError ''*errors.errorString'' text"

text \<open>A panic ends the call; a return carries the function's results.\<close>

datatype 'a outcome = Panic | Return 'a

section \<open>The logging framework\<close>

text \<open>
  \<^verbatim>\<open>logrus.Level\<close> with its six severities, and the method \<^verbatim>\<open>Level.String\<close> of the
  logrus library.
\<close>

datatype Level = PanicLevel | FatalLevel | ErrorLevel | WarnLevel | InfoLevel | DebugLevel

fun Level_String :: "Level \<Rightarrow> string" where
  "Level_String DebugLevel = ''debug''"
| "Level_String InfoLevel = ''info''"
| "Level_String WarnLevel = ''warning''"
| "Level_String ErrorLevel = ''error''"
| "Level_String FatalLevel = ''fatal''"
| "Level_String PanicLevel = ''panic''"

record Entry =
  Data :: "string \<Rightarrow> val option"
  Level :: Level
  Message :: string

section \<open>The database client\<close>

text \<open>
  A \<^verbatim>\<open>map[string]string\<close> is a reference: the hook, the point it builds and the caller
  that supplied the map all hold the same object. The store \<open>tagmaps\<close> gives the
  contents of every such map by its address; \<open>None\<close> is the nil map.
\<close>

type_synonym ref = nat
type_synonym tagmap = "string \<Rightarrow> string option"

text \<open>The rows, results and responses of a query, with the fields the hook reads.\<close>

record Row =
  Name :: string
  Columns :: "string list"
  Values :: "val list list"

record Result =
  Series :: "Row list"

text \<open>\<open>Response_Error\<close> is what the method \<^verbatim>\<open>Error()\<close> of the response returns.\<close>

record Response =
  Results :: "Result list"
  Response_Error :: "error option"

record Query =
  Command :: string
  Database :: string

text \<open>
  \<^verbatim>\<open>influxdb.Point\<close> and \<^verbatim>\<open>influxdb.BatchPoints\<close>. The type parameter is the type of
  the tags: a reference in the program (\<open>ref option\<close>), the contents of the map at the
  moment of the call in what the client is handed (\<open>tagmap\<close>).
\<close>

record 't Point =
  Measurement :: string
  Tags :: 't
  Fields :: "string \<Rightarrow> val option"
  Time :: nat
  Precision :: string

record 't BatchPoints =
  Points :: "'t Point list"
  BatchDatabase :: string
  RetentionPolicy :: string

datatype call =
    PingCall
  | QueryCall Query
  | WriteCall "tagmap BatchPoints"

text \<open>
  The client is an external collaborator. What it answers may depend on every request
  made so far, so each of its three operations is a function of the requests already
  issued and of the request itself. \<^verbatim>\<open>Query\<close> returns an error or a response. Of what
  \<^verbatim>\<open>Ping\<close> and \<^verbatim>\<open>Write\<close> return the hook reads the error only, and the model keeps
  only that.
\<close>

record Client =
  Ping_result :: "call list \<Rightarrow> error option"
  Query_result :: "call list \<Rightarrow> Query \<Rightarrow> error + Response"
  Write_result :: "call list \<Rightarrow> tagmap BatchPoints \<Rightarrow> error option"

record world =
  tagmaps :: "ref \<Rightarrow> tagmap"
  next_ref :: ref
  calls :: "call list"
  clock :: nat

text \<open>\<^verbatim>\<open>map[string]string{}\<close>: a new, empty map.\<close>

definition make_map :: "world \<Rightarrow> ref \<times> world" where
  "make_map w =
     (next_ref w,
      w\<lparr>tagmaps := (tagmaps w)(next_ref w := Map.empty), next_ref := Suc (next_ref w)\<rparr>)"

text \<open>\<^verbatim>\<open>m[k] = v\<close> on the map at address \<open>r\<close>.\<close>

definition store_tag :: "ref \<Rightarrow> string \<Rightarrow> string \<Rightarrow> world \<Rightarrow> world" where
  "store_tag r k v w = w\<lparr>tagmaps := (tagmaps w)(r := (tagmaps w r)(k \<mapsto> v))\<rparr>"

text \<open>What the client reads when it is handed a point: the contents of its tag map.\<close>

definition read_tags :: "world \<Rightarrow> ref option \<Rightarrow> tagmap" where
  "read_tags w t = (case t of None \<Rightarrow> Map.empty | Some r \<Rightarrow> tagmaps w r)"

definition read_point :: "world \<Rightarrow> (ref option) Point \<Rightarrow> tagmap Point" where
  "read_point w p =
     \<lparr>Measurement = Measurement p, Tags = read_tags w (Tags p), Fields = Fields p,
      Time = Time p, Precision = Precision p\<rparr>"

definition read_batch :: "world \<Rightarrow> (ref option) BatchPoints \<Rightarrow> tagmap BatchPoints" where
  "read_batch w bp =
     \<lparr>Points = map (read_point w) (Points bp), BatchDatabase = BatchDatabase bp,
      RetentionPolicy = RetentionPolicy bp\<rparr>"

text \<open>
  The three calls on a \<^verbatim>\<open>*influxdb.Client\<close>. A call on the nil client panics; any other
  call is recorded and answered by the client.
\<close>

definition Client_Ping :: "Client option \<Rightarrow> world \<Rightarrow> (error option) outcome \<times> world" where
  "Client_Ping c w =
     (case c of
        None \<Rightarrow> (Panic, w)
      | Some cl \<Rightarrow> (Return (Ping_result cl (calls w)), w\<lparr>calls := calls w @ [PingCall]\<rparr>))"

definition Client_Query ::
  "Client option \<Rightarrow> Query \<Rightarrow> world \<Rightarrow> (error + Response) outcome \<times> world" where
  "Client_Query c q w =
     (case c of
        None \<Rightarrow> (Panic, w)
      | Some cl \<Rightarrow> (Return (Query_result cl (calls w) q), w\<lparr>calls := calls w @ [QueryCall q]\<rparr>))"

definition Client_Write ::
  "Client option \<Rightarrow> (ref option) BatchPoints \<Rightarrow> world \<Rightarrow> (error option) outcome \<times> world" where
  "Client_Write c bp w =
     (case c of
        None \<Rightarrow> (Panic, w)
      | Some cl \<Rightarrow>
          (Return (Write_result cl (calls w) (read_batch w bp)),
           w\<lparr>calls := calls w @ [WriteCall (read_batch w bp)]\<rparr>))"

section \<open>The hook\<close>

definition DefaultHost :: string where
  "DefaultHost = ''localhost''"

definition DefaultPort :: nat where
  "DefaultPort = 8086"

definition DefaultDatabase :: string where
  "DefaultDatabase = ''logrus''"

record InfulxDBHook =
  client :: "Client option"
  database :: string
  tags :: "ref option"

subsection \<open>Reading the fields of an entry\<close>

definition getField :: "(string \<Rightarrow> val option) \<Rightarrow> string \<Rightarrow> string \<times> bool" where
  "getField d key =
     (case d key of
        None \<Rightarrow> ('''', False)
      | Some v \<Rightarrow> (case v of StringV s \<Rightarrow> (s, True) | _ \<Rightarrow> ('''', False)))"

definition getRequest :: "(string \<Rightarrow> val option) \<Rightarrow> string \<Rightarrow> request option \<times> bool" where
  "getRequest d key =
     (case d key of
        None \<Rightarrow> (None, False)
      | Some v \<Rightarrow>
          (case v of
             RequestV req \<Rightarrow> (if req = None then (None, False) else (req, True))
           | _ \<Rightarrow> (None, False)))"

subsection \<open>Fire\<close>

definition Fire ::
  "InfulxDBHook \<Rightarrow> Entry \<Rightarrow> world \<Rightarrow> (error option) outcome \<times> world" where
  "Fire hook entry w =
     (let point = \<lparr>Measurement = ''logrus'', Tags = tags hook,
                   Fields = [''message'' \<mapsto> StringV (Message entry)],
                   Time = clock w, Precision = ''s''\<rparr>
      in case Tags point of
           None \<Rightarrow> (Panic, w)
         | Some r \<Rightarrow>
             (let w1 = store_tag r ''level'' (Level_String (Level entry)) w;
                  w2 = (case getField (Data entry) ''logger'' of
                          (logger, ok) \<Rightarrow> if ok then store_tag r ''logger'' logger w1 else w1);
                  w3 = (case getField (Data entry) ''server_name'' of
                          (serverName, ok) \<Rightarrow>
                            if ok then store_tag r ''server_name'' serverName w2 else w2);
                  point1 = (case getRequest (Data entry) ''http_request'' of
                          (req, ok) \<Rightarrow>
                            if ok
                            then point\<lparr>Fields := (Fields point)(''http_request'' \<mapsto> RequestV req)\<rparr>
                            else point);
                  point2 = point1\<lparr>Fields := (Fields point1)(''extras'' \<mapsto> FieldsV (Data entry))\<rparr>
              in case Client_Write (client hook)
                        \<lparr>Points = [point2], BatchDatabase = database hook,
                         RetentionPolicy = ''default''\<rparr> w3 of
                   (Panic, w4) \<Rightarrow> (Panic, w4)
                 | (Return err, w4) \<Rightarrow>
                     (case err of Some e \<Rightarrow> (Return (Some e), w4) | None \<Rightarrow> (Return None, w4))))"

subsection \<open>The existence check and the creation of the database\<close>

definition queryDB ::
  "InfulxDBHook \<Rightarrow> string \<Rightarrow> world \<Rightarrow> (error + Result list) outcome \<times> world" where
  "queryDB hook cmd w =
     (case Client_Query (client hook) \<lparr>Command = cmd, Database = database hook\<rparr> w of
        (Panic, w') \<Rightarrow> (Panic, w')
      | (Return (Inl err), w') \<Rightarrow> (Return (Inl err), w')
      | (Return (Inr response), w') \<Rightarrow>
          (case Response_Error response of
             Some e \<Rightarrow> (Return (Inl e), w')
           | None \<Rightarrow> (Return (Inr (Results response)), w')))"

text \<open>The two loops of \<^verbatim>\<open>databaseExists\<close>: over the cells of a row, over the rows.\<close>

fun scan_row :: "string \<Rightarrow> val list \<Rightarrow> bool" where
  "scan_row db [] = False"
| "scan_row db (val # rest) =
     (case val of
        StringV v \<Rightarrow> if v = db then True else scan_row db rest
      | _ \<Rightarrow> scan_row db rest)"

fun scan_values :: "string \<Rightarrow> val list list \<Rightarrow> bool" where
  "scan_values db [] = False"
| "scan_values db (value # rest) = (if scan_row db value then True else scan_values db rest)"

definition databaseExists :: "InfulxDBHook \<Rightarrow> world \<Rightarrow> (error option) outcome \<times> world" where
  "databaseExists hook w =
     (case queryDB hook ''SHOW DATABASES'' w of
        (Panic, w') \<Rightarrow> (Panic, w')
      | (Return (Inl err), w') \<Rightarrow> (Return (Some err), w')
      | (Return (Inr results), w') \<Rightarrow>
          (case results of
             [] \<Rightarrow> (Return (Some (errors_New ''Missing results from InfluxDB query response'')), w')
           | result # _ \<Rightarrow>
               (case Series result of
                  [] \<Rightarrow>
                    (Return (Some (errors_New ''Missing series from InfluxDB query response'')), w')
                | row # _ \<Rightarrow>
                    if scan_values (database hook) (Values row)
                    then (Return None, w')
                    else (Return (Some (errors_New ''No database exists'')), w'))))"

definition autocreateDatabase :: "InfulxDBHook \<Rightarrow> world \<Rightarrow> (error option) outcome \<times> world" where
  "autocreateDatabase hook w =
     (case databaseExists hook w of
        (Panic, w1) \<Rightarrow> (Panic, w1)
      | (Return None, w1) \<Rightarrow> (Return None, w1)
      | (Return (Some _), w1) \<Rightarrow>
          (case queryDB hook (''create database '' @ database hook) w1 of
             (Panic, w2) \<Rightarrow> (Panic, w2)
           | (Return (Inl err), w2) \<Rightarrow> (Return (Some err), w2)
           | (Return (Inr _), w2) \<Rightarrow> (Return None, w2)))"

subsection \<open>Construction\<close>

text \<open>
  What \<^verbatim>\<open>NewInfluxDBHook\<close> takes from its surroundings: the parser of URLs, the variables
  of the process environment and the constructor of the client.
\<close>

type_synonym URL = string

record Config =
  URL :: URL
  Username :: string
  Password :: string
  Timeout :: nat

record env =
  url_Parse :: "string \<Rightarrow> error + URL"
  Getenv :: "string \<Rightarrow> string"
  NewClient :: "Config \<Rightarrow> error + Client"

text \<open>\<^verbatim>\<open>time.Millisecond\<close>, in nanoseconds.\<close>

definition Millisecond :: nat where
  "Millisecond = 1000000"

text \<open>The verb \<^verbatim>\<open>%d\<close> of \<^verbatim>\<open>fmt.Sprintf\<close> on a number that is not negative.\<close>

definition digit :: "nat \<Rightarrow> char" where
  "digit n = ''0123456789'' ! n"

fun decimal :: "nat \<Rightarrow> string" where
  "decimal n = (if n < 10 then [digit n] else decimal (n div 10) @ [digit (n mod 10)])"

declare decimal.simps [simp del]

definition NewInfluxDBHook ::
  "env \<Rightarrow> string \<Rightarrow> string \<Rightarrow> ref option \<Rightarrow> world \<Rightarrow>
     (error + InfulxDBHook) outcome \<times> world" where
  "NewInfluxDBHook e hostname database0 tags0 w =
     (let database1 = (if database0 = '''' then DefaultDatabase else database0);
          (tags1, w1) = (case tags0 of
                           None \<Rightarrow> (case make_map w of (r, w') \<Rightarrow> (Some r, w'))
                         | Some r \<Rightarrow> (Some r, w))
      in case url_Parse e (''http://'' @ hostname @ '':'' @ decimal DefaultPort) of
           Inl err \<Rightarrow> (Return (Inl err), w1)
         | Inr u \<Rightarrow>
             (let conf = \<lparr>URL = u, Username = Getenv e ''INFLUX_USER'',
                          Password = Getenv e ''INFLUX_PWD'', Timeout = 100 * Millisecond\<rparr>
              in case NewClient e conf of
                   Inl err \<Rightarrow> (Return (Inl err), w1)
                 | Inr cl \<Rightarrow>
                     (case Client_Ping (Some cl) w1 of
                        (Panic, w2) \<Rightarrow> (Panic, w2)
                      | (Return (Some err), w2) \<Rightarrow> (Return (Inl err), w2)
                      | (Return None, w2) \<Rightarrow>
                          (let hook = \<lparr>client = Some cl, database = database1, tags = tags1\<rparr>
                           in case autocreateDatabase hook w2 of
                                (Panic, w3) \<Rightarrow> (Panic, w3)
                              | (Return (Some err), w3) \<Rightarrow> (Return (Inl err), w3)
                              | (Return None, w3) \<Rightarrow> (Return (Inr hook), w3)))))"

definition NewWithClientInfulxDBHook ::
  "env \<Rightarrow> Client option \<Rightarrow> string \<Rightarrow> ref option \<Rightarrow> world \<Rightarrow>
     (error + InfulxDBHook) outcome \<times> world" where
  "NewWithClientInfulxDBHook e client0 database0 tags0 w =
     (let database1 = (if database0 = '''' then DefaultDatabase else database0);
          (tags1, w1) = (case tags0 of
                           None \<Rightarrow> (case make_map w of (r, w') \<Rightarrow> (Some r, w'))
                         | Some r \<Rightarrow> (Some r, w))
      in if client0 = None
         then NewInfluxDBHook e DefaultHost database1 tags1 w1
         else (Return (Inr \<lparr>client = client0, database = database1, tags = tags1\<rparr>), w1))"

subsection \<open>Levels\<close>

definition Levels :: "InfulxDBHook \<Rightarrow> Level list" where
  "Levels hook = [PanicLevel, FatalLevel, ErrorLevel, WarnLevel, InfoLevel, DebugLevel]"

section \<open>What one call of Fire does\<close>

text \<open>
  The effect of \<open>Fire\<close> in closed form: the tag map after the three stores, the field
  mapping of the point, and the batch the client is handed. \<open>Fire_store\<close> and
  \<open>Fire_point\<close> are the two halves of the body of \<open>Fire\<close>, word for word.
\<close>

definition Fire_tags :: "Entry \<Rightarrow> tagmap \<Rightarrow> tagmap" where
  "Fire_tags entry m =
     (let m1 = m(''level'' \<mapsto> Level_String (Level entry));
          m2 = (if snd (getField (Data entry) ''logger'')
                then m1(''logger'' \<mapsto> fst (getField (Data entry) ''logger'')) else m1)
      in if snd (getField (Data entry) ''server_name'')
         then m2(''server_name'' \<mapsto> fst (getField (Data entry) ''server_name'')) else m2)"

definition Fire_fields :: "Entry \<Rightarrow> string \<Rightarrow> val option" where
  "Fire_fields entry =
     (let f = [''message'' \<mapsto> StringV (Message entry)];
          f1 = (if snd (getRequest (Data entry) ''http_request'')
                then f(''http_request'' \<mapsto> RequestV (fst (getRequest (Data entry) ''http_request'')))
                else f)
      in f1(''extras'' \<mapsto> FieldsV (Data entry)))"

definition Fire_sent :: "InfulxDBHook \<Rightarrow> Entry \<Rightarrow> world \<Rightarrow> ref \<Rightarrow> tagmap BatchPoints" where
  "Fire_sent hook entry w r =
     \<lparr>Points = [\<lparr>Measurement = ''logrus'', Tags = Fire_tags entry (tagmaps w r),
                 Fields = Fire_fields entry, Time = clock w, Precision = ''s''\<rparr>],
      BatchDatabase = database hook, RetentionPolicy = ''default''\<rparr>"

definition Fire_store :: "Entry \<Rightarrow> ref \<Rightarrow> world \<Rightarrow> world" where
  "Fire_store entry r w =
     (let w1 = store_tag r ''level'' (Level_String (Level entry)) w;
          w2 = (case getField (Data entry) ''logger'' of
                  (logger, ok) \<Rightarrow> if ok then store_tag r ''logger'' logger w1 else w1)
      in (case getField (Data entry) ''server_name'' of
                  (serverName, ok) \<Rightarrow>
                    if ok then store_tag r ''server_name'' serverName w2 else w2))"

definition Fire_point :: "InfulxDBHook \<Rightarrow> Entry \<Rightarrow> world \<Rightarrow> (ref option) Point" where
  "Fire_point hook entry w =
     (let point = \<lparr>Measurement = ''logrus'', Tags = tags hook,
                   Fields = [''message'' \<mapsto> StringV (Message entry)],
                   Time = clock w, Precision = ''s''\<rparr>;
          point1 = (case getRequest (Data entry) ''http_request'' of
                          (req, ok) \<Rightarrow>
                            if ok
                            then point\<lparr>Fields := (Fields point)(''http_request'' \<mapsto> RequestV req)\<rparr>
                            else point)
      in point1\<lparr>Fields := (Fields point1)(''extras'' \<mapsto> FieldsV (Data entry))\<rparr>)"

section \<open>Concrete hooks, entries and clients\<close>

text \<open>A client whose every call succeeds; its responses list the database \<open>logrus\<close>.\<close>

definition databases_response :: "string list \<Rightarrow> Response" where
  "databases_response names =
     \<lparr>Results = [\<lparr>Series = [\<lparr>Name = ''databases'', Columns = [''name''],
                                Values = map (\<lambda>n. [StringV n]) names\<rparr>]\<rparr>],
      Response_Error = None\<rparr>"

definition client_ok :: Client where
  "client_ok =
     \<lparr>Ping_result = (\<lambda>h. None),
      Query_result = (\<lambda>h q. Inr (databases_response [''_internal'', ''logrus''])),
      Write_result = (\<lambda>h bp. None)\<rparr>"

text \<open>A client that cannot reach the database: every call fails.\<close>

definition client_failing :: Client where
  "client_failing =
     \<lparr>Ping_result = (\<lambda>h. Some (GoError ''*url.Error'' ''connection refused'')),
      Query_result = (\<lambda>h q. Inl (GoError ''*url.Error'' ''connection refused'')),
      Write_result = (\<lambda>h bp. Some (GoError ''*url.Error'' ''connection refused''))\<rparr>"

definition hook_failing :: InfulxDBHook where
  "hook_failing = \<lparr>client = Some client_failing, database = ''logrus'', tags = Some 0\<rparr>"

text \<open>A client whose server answers every query with an error of its own.\<close>

definition client_erring :: Client where
  "client_erring =
     \<lparr>Ping_result = (\<lambda>h. None),
      Query_result = (\<lambda>h q. Inr \<lparr>Results = [],
                        Response_Error = Some (GoError ''*errors.errorString'' ''not authorized'')\<rparr>),
      Write_result = (\<lambda>h bp. None)\<rparr>"

definition hook_erring :: InfulxDBHook where
  "hook_erring = \<lparr>client = Some client_erring, database = ''logrus'', tags = Some 0\<rparr>"

text \<open>A world with one map allocated, at address 0, and no request made yet.\<close>

definition world0 :: world where
  "world0 = \<lparr>tagmaps = (\<lambda>r. Map.empty), next_ref = 1, calls = [], clock = 0\<rparr>"

definition hook0 :: InfulxDBHook where
  "hook0 = \<lparr>client = Some client_ok, database = ''logrus'', tags = Some 0\<rparr>"

definition entry0 :: Entry where
  "entry0 =
     \<lparr>Data = [''logger'' \<mapsto> StringV ''diskmon'', ''server_name'' \<mapsto> StringV ''db1'',
              ''http_request'' \<mapsto> RequestV (Some 7)],
      Level = InfoLevel, Message = ''disk low''\<rparr>"

text \<open>An entry with no field, and a world whose map at address 0 holds default tags.\<close>

definition entry_plain :: Entry where
  "entry_plain = \<lparr>Data = Map.empty, Level = ErrorLevel, Message = ''boot''\<rparr>"

definition world_tagged :: world where
  "world_tagged =
     \<lparr>tagmaps = (\<lambda>r. Map.empty)(0 := [''logger'' \<mapsto> ''app'', ''level'' \<mapsto> ''all'']),
      next_ref = 1, calls = [], clock = 0\<rparr>"

section \<open>The host calling Fire for one entry after the other\<close>

text \<open>
  The logging framework calls \<open>Fire\<close> once for each entry and goes on whatever a call
  returns; \<open>Fire_each\<close> is the world after the calls.
\<close>

fun Fire_each :: "InfulxDBHook \<Rightarrow> Entry list \<Rightarrow> world \<Rightarrow> world" where
  "Fire_each hook [] w = w"
| "Fire_each hook (entry # entries) w = Fire_each hook entries (snd (Fire hook entry w))"

section \<open>What the queries do\<close>

text \<open>
  The result of \<open>queryDB\<close> for the answer of the client, and the verdict of
  \<open>databaseExists\<close> for that result: the bodies of the two functions, without the call.
\<close>

definition queryDB_result :: "error + Response \<Rightarrow> error + Result list" where
  "queryDB_result answer =
     (case answer of
        Inl err \<Rightarrow> Inl err
      | Inr response \<Rightarrow>
          (case Response_Error response of Some e \<Rightarrow> Inl e | None \<Rightarrow> Inr (Results response)))"

definition exists_verdict :: "string \<Rightarrow> error + Result list \<Rightarrow> error option" where
  "exists_verdict db res =
     (case res of
        Inl err \<Rightarrow> Some err
      | Inr results \<Rightarrow>
          (case results of
             [] \<Rightarrow> Some (errors_New ''Missing results from InfluxDB query response'')
           | result # _ \<Rightarrow>
               (case Series result of
                  [] \<Rightarrow> Some (errors_New ''Missing series from InfluxDB query response'')
                | row # _ \<Rightarrow>
                    if scan_values db (Values row) then None
                    else Some (errors_New ''No database exists''))))"

definition show_query :: "InfulxDBHook \<Rightarrow> Query" where
  "show_query hook = \<lparr>Command = ''SHOW DATABASES'', Database = database hook\<rparr>"

definition create_query :: "InfulxDBHook \<Rightarrow> Query" where
  "create_query hook =
     \<lparr>Command = ''create database '' @ database hook, Database = database hook\<rparr>"

text \<open>
  The condition of the specification for the check to succeed: some string-typed cell
  among the value rows of the first result's first series equals the database name.
\<close>

definition names_database :: "string \<Rightarrow> Result list \<Rightarrow> bool" where
  "names_database db results =
     (case results of
        [] \<Rightarrow> False
      | result # _ \<Rightarrow>
          (case Series result of
             [] \<Rightarrow> False
           | row # _ \<Rightarrow> (\<exists>value \<in> set (Values row). \<exists>cell \<in> set value. cell = StringV db)))"

text \<open>A hook on the client that answers, for a database the client does not list.\<close>

definition hook_metrics :: InfulxDBHook where
  "hook_metrics = \<lparr>client = Some client_ok, database = ''metrics'', tags = Some 0\<rparr>"

section \<open>What the constructors do\<close>

text \<open>
  Both constructors begin with the same two substitutions; \<open>default_args\<close> is that
  beginning and \<open>connect_hook\<close> the rest of \<open>NewInfluxDBHook\<close>, word for word.
\<close>

definition default_args :: "string \<Rightarrow> ref option \<Rightarrow> world \<Rightarrow> string \<times> ref option \<times> world" where
  "default_args database0 tags0 w =
     (let database1 = (if database0 = '''' then DefaultDatabase else database0);
          (tags1, w1) = (case tags0 of
                           None \<Rightarrow> (case make_map w of (r, w') \<Rightarrow> (Some r, w'))
                         | Some r \<Rightarrow> (Some r, w))
      in (database1, tags1, w1))"

definition connect_hook ::
  "env \<Rightarrow> string \<Rightarrow> string \<Rightarrow> ref option \<Rightarrow> world \<Rightarrow>
     (error + InfulxDBHook) outcome \<times> world" where
  "connect_hook e hostname database1 tags1 w1 =
     (case url_Parse e (''http://'' @ hostname @ '':'' @ decimal DefaultPort) of
           Inl err \<Rightarrow> (Return (Inl err), w1)
         | Inr u \<Rightarrow>
             (let conf = \<lparr>URL = u, Username = Getenv e ''INFLUX_USER'',
                          Password = Getenv e ''INFLUX_PWD'', Timeout = 100 * Millisecond\<rparr>
              in case NewClient e conf of
                   Inl err \<Rightarrow> (Return (Inl err), w1)
                 | Inr cl \<Rightarrow>
                     (case Client_Ping (Some cl) w1 of
                        (Panic, w2) \<Rightarrow> (Panic, w2)
                      | (Return (Some err), w2) \<Rightarrow> (Return (Inl err), w2)
                      | (Return None, w2) \<Rightarrow>
                          (let hook = \<lparr>client = Some cl, database = database1, tags = tags1\<rparr>
                           in case autocreateDatabase hook w2 of
                                (Panic, w3) \<Rightarrow> (Panic, w3)
                              | (Return (Some err), w3) \<Rightarrow> (Return (Inl err), w3)
                              | (Return None, w3) \<Rightarrow> (Return (Inr hook), w3)))))"

text \<open>
  Surroundings in which every step of the construction succeeds: any URL parses, no
  credentials are set, and the client built is \<open>client_ok\<close>.
\<close>

definition env0 :: env where
  "env0 = \<lparr>url_Parse = (\<lambda>s. Inr s), Getenv = (\<lambda>name. []), NewClient = (\<lambda>conf. Inr client_ok)\<rparr>"

definition hook_new :: InfulxDBHook where
  "hook_new = \<lparr>client = Some client_ok, database = ''logrus'', tags = Some 1\<rparr>"

section \<open>Lemmas on Fire\<close>

lemma Client_Write_Some:
  "Client_Write (Some cl) bp w =
     (Return (Write_result cl (calls w) (read_batch w bp)),
      w\<lparr>calls := calls w @ [WriteCall (read_batch w bp)]\<rparr>)"
  by (simp add: Client_Write_def)

lemma store_tag_eq:
  "store_tag r k v w = w\<lparr>tagmaps := (tagmaps w)(r := (tagmaps w r)(k \<mapsto> v))\<rparr>"
  by (simp add: store_tag_def)

lemma Fire_store_eq:
  "Fire_store entry r w = w\<lparr>tagmaps := (tagmaps w)(r := Fire_tags entry (tagmaps w r))\<rparr>"
proof -
  obtain l lok where l: "getField (Data entry) ''logger'' = (l, lok)"
    by (cases "getField (Data entry) ''logger''")
  obtain s sok where s: "getField (Data entry) ''server_name'' = (s, sok)"
    by (cases "getField (Data entry) ''server_name''")
  show ?thesis
    by (cases lok; cases sok) (simp_all add: Fire_store_def Fire_tags_def l s store_tag_eq)
qed

lemma Fire_point_eq:
  "Fire_point hook entry w =
     \<lparr>Measurement = ''logrus'', Tags = tags hook, Fields = Fire_fields entry,
      Time = clock w, Precision = ''s''\<rparr>"
proof -
  obtain q qok where q: "getRequest (Data entry) ''http_request'' = (q, qok)"
    by (cases "getRequest (Data entry) ''http_request''")
  show ?thesis
    by (cases qok) (simp_all add: Fire_point_def Fire_fields_def q)
qed

lemma Fire_unfold:
  assumes "tags hook = Some r" and "client hook = Some c"
  shows "Fire hook entry w =
     (case Client_Write (Some c)
             \<lparr>Points = [Fire_point hook entry w], BatchDatabase = database hook,
              RetentionPolicy = ''default''\<rparr> (Fire_store entry r w) of
        (Panic, w4) \<Rightarrow> (Panic, w4)
      | (Return err, w4) \<Rightarrow>
          (case err of Some e \<Rightarrow> (Return (Some e), w4) | None \<Rightarrow> (Return None, w4)))"
  unfolding Fire_def Fire_store_def Fire_point_def Let_def
  by (simp only: assms Point.simps option.case)

lemma read_batch_Fire:
  assumes "tags hook = Some r"
  shows "read_batch (w\<lparr>tagmaps := (tagmaps w)(r := Fire_tags entry (tagmaps w r))\<rparr>)
           \<lparr>Points = [\<lparr>Measurement = ''logrus'', Tags = tags hook, Fields = Fire_fields entry,
                       Time = clock w, Precision = ''s''\<rparr>],
            BatchDatabase = database hook, RetentionPolicy = ''default''\<rparr> =
         Fire_sent hook entry w r"
  by (simp add: read_batch_def read_point_def read_tags_def Fire_sent_def assms)

lemma Fire_Some:
  assumes "tags hook = Some r" and "client hook = Some c"
  shows "Fire hook entry w =
     (Return (Write_result c (calls w) (Fire_sent hook entry w r)),
      w\<lparr>tagmaps := (tagmaps w)(r := Fire_tags entry (tagmaps w r)),
        calls := calls w @ [WriteCall (Fire_sent hook entry w r)]\<rparr>)"
proof -
  have "Fire hook entry w =
     (Return (Write_result c (calls w) (Fire_sent hook entry w r)),
      (w\<lparr>tagmaps := (tagmaps w)(r := Fire_tags entry (tagmaps w r))\<rparr>)
       \<lparr>calls := calls w @ [WriteCall (Fire_sent hook entry w r)]\<rparr>)"
    unfolding Fire_unfold [OF assms] Client_Write_Some Fire_store_eq Fire_point_eq
      read_batch_Fire [OF assms(1)]
    by (cases "Write_result c (calls w) (Fire_sent hook entry w r)") simp_all
  then show ?thesis by simp
qed

text \<open>
  On a hook whose tag map is nil the first store panics, and on a hook whose client is
  nil the write does. Both constructors return hooks that have a tag map and a client,
  so the claims below are stated for such hooks.
\<close>

lemma Fire_nil_tags: "tags hook = None \<Longrightarrow> Fire hook entry w = (Panic, w)"
  by (simp add: Fire_def)

lemma Fire_nil_client:
  assumes "tags hook = Some r" and "client hook = None"
  shows "fst (Fire hook entry w) = Panic"
  unfolding Fire_def Let_def
  by (simp add: assms Client_Write_def)

lemma getField_string: "d k = Some (StringV s) \<Longrightarrow> getField d k = (s, True)"
  by (simp add: getField_def)

lemma getField_other: "\<forall>s. d k \<noteq> Some (StringV s) \<Longrightarrow> getField d k = ([], False)"
  by (cases "d k"; simp add: getField_def split: val.split)

lemma getRequest_request: "d k = Some (RequestV (Some q)) \<Longrightarrow> getRequest d k = (Some q, True)"
  by (simp add: getRequest_def)

lemma getRequest_other: "\<forall>q. d k \<noteq> Some (RequestV (Some q)) \<Longrightarrow> getRequest d k = (None, False)"
  by (cases "d k") (auto simp: getRequest_def split: val.split)

lemma Fire_fields_extras: "Fire_fields entry ''extras'' = Some (FieldsV (Data entry))"
  by (simp add: Fire_fields_def Let_def)

lemma Fire_fields_http_request:
  "Fire_fields entry ''http_request'' =
     (if snd (getRequest (Data entry) ''http_request'')
      then Some (RequestV (fst (getRequest (Data entry) ''http_request''))) else None)"
  by (simp add: Fire_fields_def Let_def)

lemma Fire_tags_level: "Fire_tags entry m ''level'' = Some (Level_String (Level entry))"
  by (simp add: Fire_tags_def Let_def)

lemma Fire_tags_logger:
  "Fire_tags entry m ''logger'' =
     (if snd (getField (Data entry) ''logger'')
      then Some (fst (getField (Data entry) ''logger'')) else m ''logger'')"
  by (simp add: Fire_tags_def Let_def)

lemma Fire_tags_server_name:
  "Fire_tags entry m ''server_name'' =
     (if snd (getField (Data entry) ''server_name'')
      then Some (fst (getField (Data entry) ''server_name'')) else m ''server_name'')"
  by (simp add: Fire_tags_def Let_def)

lemma Fire_tags_other:
  "k \<noteq> ''level'' \<Longrightarrow> k \<noteq> ''logger'' \<Longrightarrow> k \<noteq> ''server_name'' \<Longrightarrow> Fire_tags entry m k = m k"
  by (simp add: Fire_tags_def Let_def)

lemma Fire_calls:
  assumes "tags hook = Some r" and "client hook = Some c"
  shows "calls (snd (Fire hook entry w)) =
           calls w @ [WriteCall \<lparr>Points = [\<lparr>Measurement = ''logrus'',
                        Tags = Fire_tags entry (tagmaps w r), Fields = Fire_fields entry,
                        Time = clock w, Precision = ''s''\<rparr>],
                      BatchDatabase = database hook, RetentionPolicy = ''default''\<rparr>]"
  by (simp add: Fire_Some [OF assms] Fire_sent_def)

lemma Fire_result:
  assumes "tags hook = Some r" and "client hook = Some c"
  shows "fst (Fire hook entry w) =
           Return (Write_result c (calls w)
             \<lparr>Points = [\<lparr>Measurement = ''logrus'',
                          Tags = Fire_tags entry (tagmaps w r), Fields = Fire_fields entry,
                          Time = clock w, Precision = ''s''\<rparr>],
              BatchDatabase = database hook, RetentionPolicy = ''default''\<rparr>)"
  by (simp add: Fire_Some [OF assms] Fire_sent_def)

lemma Fire_tagmaps:
  assumes "tags hook = Some r" and "client hook = Some c"
  shows "tagmaps (snd (Fire hook entry w)) = (tagmaps w)(r := Fire_tags entry (tagmaps w r))"
  by (simp add: Fire_Some [OF assms])

lemma Fire_tags_keep:
  assumes "k \<noteq> ''level''" and "\<not> snd (getField (Data entry) k)"
  shows "Fire_tags entry m k = m k"
proof -
  consider "k = ''logger''" | "k = ''server_name''" | "k \<noteq> ''logger''" "k \<noteq> ''server_name''"
    by blast
  then show ?thesis
  proof cases
    case 1
    then show ?thesis using assms(2) by (simp add: Fire_tags_logger)
  next
    case 2
    then show ?thesis using assms(2) by (simp add: Fire_tags_server_name)
  next
    case 3
    then show ?thesis using assms(1) by (simp add: Fire_tags_other)
  qed
qed

lemma Fire_tags_dom: "dom m \<subseteq> dom (Fire_tags entry m)"
proof
  fix k
  assume "k \<in> dom m"
  then obtain v where v: "m k = Some v"
    by blast
  consider "k = ''level''" | "k = ''logger''" | "k = ''server_name''"
    | "k \<noteq> ''level''" "k \<noteq> ''logger''" "k \<noteq> ''server_name''"
    by blast
  then have "Fire_tags entry m k \<noteq> None"
  proof cases
    case 1
    then show ?thesis by (simp add: Fire_tags_level)
  next
    case 2
    then show ?thesis using v by (simp add: Fire_tags_logger)
  next
    case 3
    then show ?thesis using v by (simp add: Fire_tags_server_name)
  next
    case 4
    then show ?thesis using v by (simp add: Fire_tags_other)
  qed
  then show "k \<in> dom (Fire_tags entry m)"
    by blast
qed

lemma Fire_each_dom:
  assumes "tags hook = Some r" and "client hook = Some c"
  shows "dom (tagmaps w r) \<subseteq> dom (tagmaps (Fire_each hook entries w) r)"
proof (induction entries arbitrary: w)
  case Nil
  show ?case by simp
next
  case (Cons entry entries)
  have "dom (tagmaps w r) \<subseteq> dom (tagmaps (snd (Fire hook entry w)) r)"
    using Fire_tags_dom [of "tagmaps w r" entry] by (simp add: Fire_tagmaps [OF assms])
  also have "\<dots> \<subseteq> dom (tagmaps (Fire_each hook entries (snd (Fire hook entry w))) r)"
    by (rule Cons.IH)
  finally show ?case by simp
qed

lemma Fire_each_keep:
  assumes "tags hook = Some r" and "client hook = Some c" and "k \<noteq> ''level''"
    and "\<forall>entry \<in> set entries. \<not> snd (getField (Data entry) k)"
  shows "tagmaps (Fire_each hook entries w) r k = tagmaps w r k"
  using assms(4)
proof (induction entries arbitrary: w)
  case Nil
  show ?case by simp
next
  case (Cons entry entries)
  have "tagmaps (Fire_each hook entries (snd (Fire hook entry w))) r k =
          tagmaps (snd (Fire hook entry w)) r k"
    using Cons.prems by (intro Cons.IH) simp
  also have "\<dots> = tagmaps w r k"
    using Cons.prems Fire_tags_keep [OF assms(3), of entry "tagmaps w r"]
    by (simp add: Fire_tagmaps [OF assms(1,2)])
  finally show ?case by simp
qed

lemma getField_snd: "snd (getField d k) \<longleftrightarrow> (\<exists>s. d k = Some (StringV s))"
  by (cases "d k") (auto simp: getField_def split: val.split)

lemma Fire_each_append:
  "Fire_each hook (xs @ ys) w = Fire_each hook ys (Fire_each hook xs w)"
  by (induction xs arbitrary: w) simp_all

lemma Fire_tags_field:
  assumes "k = ''logger'' \<or> k = ''server_name''" and "Data entry k = Some (StringV s)"
  shows "Fire_tags entry m k = Some s"
  using assms(1) getField_string [of "Data entry" k s] assms(2)
  by (auto simp: Fire_tags_logger Fire_tags_server_name)

section \<open>The claims on Fire\<close>

text \<open>
  C1. For every log event, the point written by Fire has a field \<open>extras\<close> that is the
  event's whole field mapping, key for key and value for value, whatever the mapping
  holds (the keys \<open>logger\<close>, \<open>server_name\<close> and \<open>http_request\<close> included). The hook is one
  whose client and tag map are not nil, as both constructors build it; Fire then issues
  one write of one point.
\<close>

theorem Fire_extras_is_Data:
  assumes "tags hook = Some r" and "client hook = Some c"
  shows "\<exists>p. calls (snd (Fire hook entry w)) =
               calls w @ [WriteCall \<lparr>Points = [p], BatchDatabase = database hook,
                                     RetentionPolicy = ''default''\<rparr>]
             \<and> Fields p ''extras'' = Some (FieldsV (Data entry))"
  by (simp add: Fire_calls [OF assms] Fire_fields_extras)

theorem Fire_extras_is_Data_witness:
  "tags hook0 = Some 0 \<and> client hook0 = Some client_ok
   \<and> (\<exists>p. calls (snd (Fire hook0 entry0 world0)) =
               calls world0 @ [WriteCall \<lparr>Points = [p], BatchDatabase = database hook0,
                                          RetentionPolicy = ''default''\<rparr>]
          \<and> Fields p ''extras'' = Some (FieldsV (Data entry0)))"
  using Fire_extras_is_Data [of hook0 0 client_ok entry0 world0]
  by (simp add: hook0_def)

text \<open>
  C2. For every log event of level L, one of the six severities, the point written by
  Fire carries the tag \<open>level\<close> with the string form of L.
\<close>

theorem Fire_level_tag:
  assumes "tags hook = Some r" and "client hook = Some c"
  shows "Level entry \<in> set (Levels hook)
         \<and> (\<exists>p. calls (snd (Fire hook entry w)) =
               calls w @ [WriteCall \<lparr>Points = [p], BatchDatabase = database hook,
                                     RetentionPolicy = ''default''\<rparr>]
             \<and> Tags p ''level'' = Some (Level_String (Level entry)))"
proof
  show "Level entry \<in> set (Levels hook)"
    by (cases "Level entry") (simp_all add: Levels_def)
  show "\<exists>p. calls (snd (Fire hook entry w)) =
               calls w @ [WriteCall \<lparr>Points = [p], BatchDatabase = database hook,
                                     RetentionPolicy = ''default''\<rparr>]
             \<and> Tags p ''level'' = Some (Level_String (Level entry))"
    by (simp add: Fire_calls [OF assms] Fire_tags_level)
qed

theorem Fire_level_tag_witness:
  "tags hook0 = Some 0 \<and> client hook0 = Some client_ok
   \<and> (\<exists>p. calls (snd (Fire hook0 entry0 world0)) =
               calls world0 @ [WriteCall \<lparr>Points = [p], BatchDatabase = database hook0,
                                          RetentionPolicy = ''default''\<rparr>]
          \<and> Tags p ''level'' = Some ''info'')"
  using Fire_level_tag [of hook0 0 client_ok entry0 world0]
  by (simp add: hook0_def entry0_def)

text \<open>
  C3, as the code has it. When the event's field mapping holds a string at \<open>logger\<close>
  (or at \<open>server_name\<close>), the point written by Fire has the tag of that name with that
  string. When the key is absent or holds a value that is not a string, Fire does not
  store the tag, and the written point has for it what the hook's tag map held before
  the call: nothing when the map had no such key, and otherwise the value a default or
  an earlier event left there.
\<close>

theorem Fire_field_tags:
  assumes "tags hook = Some r" and "client hook = Some c"
    and "k = ''logger'' \<or> k = ''server_name''"
  shows "\<exists>p. calls (snd (Fire hook entry w)) =
               calls w @ [WriteCall \<lparr>Points = [p], BatchDatabase = database hook,
                                     RetentionPolicy = ''default''\<rparr>]
             \<and> (\<forall>s. Data entry k = Some (StringV s) \<longrightarrow> Tags p k = Some s)
             \<and> ((\<forall>s. Data entry k \<noteq> Some (StringV s)) \<longrightarrow> Tags p k = tagmaps w r k)"
proof -
  have string: "Fire_tags entry (tagmaps w r) k = Some s" if "Data entry k = Some (StringV s)" for s
    using assms(3) getField_string [of "Data entry" k s] that
    by (auto simp: Fire_tags_logger Fire_tags_server_name)
  have other: "Fire_tags entry (tagmaps w r) k = tagmaps w r k"
    if "\<forall>s. Data entry k \<noteq> Some (StringV s)"
    using assms(3) getField_other [of "Data entry" k] that
    by (auto simp: Fire_tags_logger Fire_tags_server_name)
  show ?thesis
    using string other by (simp add: Fire_calls [OF assms(1,2)])
qed

theorem Fire_field_tags_witness:
  "tags hook0 = Some 0 \<and> client hook0 = Some client_ok
   \<and> Data entry0 ''logger'' = Some (StringV ''diskmon'')
   \<and> (\<exists>p. calls (snd (Fire hook0 entry0 world0)) =
               calls world0 @ [WriteCall \<lparr>Points = [p], BatchDatabase = database hook0,
                                          RetentionPolicy = ''default''\<rparr>]
          \<and> Tags p ''logger'' = Some ''diskmon'')
   \<and> Data entry_plain ''server_name'' = None
   \<and> (\<exists>p. calls (snd (Fire hook0 entry_plain world0)) =
               calls world0 @ [WriteCall \<lparr>Points = [p], BatchDatabase = database hook0,
                                          RetentionPolicy = ''default''\<rparr>]
          \<and> Tags p ''server_name'' = None)"
proof -
  have h: "tags hook0 = Some 0" "client hook0 = Some client_ok"
    by (simp_all add: hook0_def)
  have d: "Data entry0 ''logger'' = Some (StringV ''diskmon'')"
    by (simp add: entry0_def)
  have n: "Data entry_plain ''server_name'' = None" "tagmaps world0 0 ''server_name'' = None"
    by (simp_all add: entry_plain_def world0_def)
  from Fire_field_tags [OF h, of "''logger''" entry0 world0] d
  have a: "\<exists>p. calls (snd (Fire hook0 entry0 world0)) =
               calls world0 @ [WriteCall \<lparr>Points = [p], BatchDatabase = database hook0,
                                          RetentionPolicy = ''default''\<rparr>]
          \<and> Tags p ''logger'' = Some ''diskmon''"
    by auto
  from Fire_field_tags [OF h, of "''server_name''" entry_plain world0] n
  have b: "\<exists>p. calls (snd (Fire hook0 entry_plain world0)) =
               calls world0 @ [WriteCall \<lparr>Points = [p], BatchDatabase = database hook0,
                                          RetentionPolicy = ''default''\<rparr>]
          \<and> Tags p ''server_name'' = None"
    by auto
  show ?thesis using h d n(1) a b by simp
qed

text \<open>
  C3 as the specification states it fails: the event below has no field \<open>logger\<close>, the
  hook's tag map holds the default \<open>logger = app\<close>, and the written point carries it.
\<close>

theorem Fire_absent_logger_counterexample:
  "Data entry_plain ''logger'' = None
   \<and> calls (snd (Fire hook0 entry_plain world_tagged)) =
       [WriteCall \<lparr>Points = [\<lparr>Measurement = ''logrus'',
                               Tags = [''logger'' \<mapsto> ''app'', ''level'' \<mapsto> ''error''],
                               Fields = [''message'' \<mapsto> StringV ''boot'',
                                         ''extras'' \<mapsto> FieldsV Map.empty],
                               Time = 0, Precision = ''s''\<rparr>],
                   BatchDatabase = ''logrus'', RetentionPolicy = ''default''\<rparr>]"
proof -
  have h: "tags hook0 = Some 0" "client hook0 = Some client_ok"
    by (simp_all add: hook0_def)
  have t: "Fire_tags entry_plain (tagmaps world_tagged 0) =
             [''logger'' \<mapsto> ''app'', ''level'' \<mapsto> ''error'']"
    by (simp add: Fire_tags_def getField_def entry_plain_def world_tagged_def)
  have f: "Fire_fields entry_plain =
             [''message'' \<mapsto> StringV ''boot'', ''extras'' \<mapsto> FieldsV Map.empty]"
    by (simp add: Fire_fields_def getRequest_def entry_plain_def)
  have "calls world_tagged = []" "clock world_tagged = 0" "database hook0 = ''logrus''"
    by (simp_all add: world_tagged_def hook0_def)
  then show ?thesis
    by (simp add: Fire_calls [OF h] t f) (simp add: entry_plain_def)
qed

text \<open>
  C4. When the event's field mapping holds a request handle that is not nil at
  \<open>http_request\<close>, the written point has the field \<open>http_request\<close> with that handle.
  When the key holds the nil handle or a value of another type, or is absent, the
  written point has no field \<open>http_request\<close>, and nothing is raised for it: Fire does not
  panic, and it returns nil when the write succeeds.
\<close>

theorem Fire_http_request_field:
  assumes "tags hook = Some r" and "client hook = Some c"
  shows "\<exists>p. calls (snd (Fire hook entry w)) =
               calls w @ [WriteCall \<lparr>Points = [p], BatchDatabase = database hook,
                                     RetentionPolicy = ''default''\<rparr>]
             \<and> (\<forall>q. Data entry ''http_request'' = Some (RequestV (Some q)) \<longrightarrow>
                    Fields p ''http_request'' = Some (RequestV (Some q)))
             \<and> ((\<forall>q. Data entry ''http_request'' \<noteq> Some (RequestV (Some q))) \<longrightarrow>
                    Fields p ''http_request'' = None
                    \<and> fst (Fire hook entry w) \<noteq> Panic
                    \<and> (Write_result c (calls w)
                          \<lparr>Points = [p], BatchDatabase = database hook,
                           RetentionPolicy = ''default''\<rparr> = None \<longrightarrow>
                        fst (Fire hook entry w) = Return None))"
proof -
  have request: "Fire_fields entry ''http_request'' = Some (RequestV (Some q))"
    if "Data entry ''http_request'' = Some (RequestV (Some q))" for q
    using getRequest_request [of "Data entry" "''http_request''" q] that
    by (simp add: Fire_fields_http_request)
  have other: "Fire_fields entry ''http_request'' = None"
    if "\<forall>q. Data entry ''http_request'' \<noteq> Some (RequestV (Some q))"
    using getRequest_other [of "Data entry" "''http_request''"] that
    by (simp add: Fire_fields_http_request)
  show ?thesis
    using request other
    by (simp add: Fire_calls [OF assms] Fire_result [OF assms])
qed

theorem Fire_http_request_field_witness:
  "tags hook0 = Some 0 \<and> client hook0 = Some client_ok
   \<and> Data entry0 ''http_request'' = Some (RequestV (Some 7))
   \<and> (\<exists>p. calls (snd (Fire hook0 entry0 world0)) =
               calls world0 @ [WriteCall \<lparr>Points = [p], BatchDatabase = database hook0,
                                          RetentionPolicy = ''default''\<rparr>]
          \<and> Fields p ''http_request'' = Some (RequestV (Some 7)))
   \<and> Data entry_plain ''http_request'' = None
   \<and> (\<exists>p. calls (snd (Fire hook0 entry_plain world0)) =
               calls world0 @ [WriteCall \<lparr>Points = [p], BatchDatabase = database hook0,
                                          RetentionPolicy = ''default''\<rparr>]
          \<and> Fields p ''http_request'' = None)
   \<and> fst (Fire hook0 entry_plain world0) = Return None"
proof -
  have h: "tags hook0 = Some 0" "client hook0 = Some client_ok"
    by (simp_all add: hook0_def)
  have d: "Data entry0 ''http_request'' = Some (RequestV (Some 7))"
    by (simp add: entry0_def)
  have n: "Data entry_plain ''http_request'' = None"
    by (simp add: entry_plain_def)
  have ok: "Write_result client_ok hist bp = None" for hist bp
    by (simp add: client_ok_def)
  from Fire_http_request_field [OF h, of entry0 world0] d
  have a: "\<exists>p. calls (snd (Fire hook0 entry0 world0)) =
               calls world0 @ [WriteCall \<lparr>Points = [p], BatchDatabase = database hook0,
                                          RetentionPolicy = ''default''\<rparr>]
          \<and> Fields p ''http_request'' = Some (RequestV (Some 7))"
    by auto
  from Fire_http_request_field [OF h, of entry_plain world0] n ok
  have b: "(\<exists>p. calls (snd (Fire hook0 entry_plain world0)) =
               calls world0 @ [WriteCall \<lparr>Points = [p], BatchDatabase = database hook0,
                                          RetentionPolicy = ''default''\<rparr>]
          \<and> Fields p ''http_request'' = None)
          \<and> fst (Fire hook0 entry_plain world0) = Return None"
    by auto
  show ?thesis using h d n a b by simp
qed

text \<open>
  C8. Fire returns what the write returned: the write's error, unchanged, when the
  write fails, and nil when it succeeds. The write is the only request Fire makes, so
  no other error can arise and none is dropped.
\<close>

theorem Fire_returns_write_error:
  assumes "tags hook = Some r" and "client hook = Some c"
  shows "\<exists>bp. calls (snd (Fire hook entry w)) = calls w @ [WriteCall bp]
              \<and> fst (Fire hook entry w) = Return (Write_result c (calls w) bp)"
  by (simp add: Fire_calls [OF assms] Fire_result [OF assms])

theorem Fire_returns_write_error_witness:
  "tags hook_failing = Some 0 \<and> client hook_failing = Some client_failing
   \<and> fst (Fire hook_failing entry0 world0) =
       Return (Some (GoError ''*url.Error'' ''connection refused''))
   \<and> tags hook0 = Some 0 \<and> client hook0 = Some client_ok
   \<and> fst (Fire hook0 entry0 world0) = Return None"
proof -
  have h: "tags hook_failing = Some 0" "client hook_failing = Some client_failing"
    by (simp_all add: hook_failing_def)
  have h0: "tags hook0 = Some 0" "client hook0 = Some client_ok"
    by (simp_all add: hook0_def)
  have f: "Write_result client_failing hist bp =
             Some (GoError ''*url.Error'' ''connection refused'')" for hist bp
    by (simp add: client_failing_def)
  have ok: "Write_result client_ok hist bp = None" for hist bp
    by (simp add: client_ok_def)
  from Fire_returns_write_error [OF h, of entry0 world0] f
  have a: "fst (Fire hook_failing entry0 world0) =
             Return (Some (GoError ''*url.Error'' ''connection refused''))"
    by auto
  from Fire_returns_write_error [OF h0, of entry0 world0] ok
  have b: "fst (Fire hook0 entry0 world0) = Return None"
    by auto
  show ?thesis using h h0 a b by simp
qed

text \<open>
  C9. Fire hands the client the hook's own tag map and stores into it, so what one call
  stores stays for the calls that follow. For an earlier call of Fire, any calls in
  between and a later call on the same hook: the tags of the later point are the
  contents of the hook's map after that call; every key the map held after the earlier
  call is on the later point; a \<open>logger\<close> or \<open>server_name\<close> the earlier event supplied is
  on the later point, and with the earlier event's string when no event after it has a
  string at that key.
\<close>

theorem Fire_tags_persist:
  assumes "tags hook = Some r" and "client hook = Some c"
  shows "\<exists>p. calls (snd (Fire hook later (Fire_each hook (earlier # between) w))) =
               calls (Fire_each hook (earlier # between) w)
                 @ [WriteCall \<lparr>Points = [p], BatchDatabase = database hook,
                               RetentionPolicy = ''default''\<rparr>]
             \<and> Tags p = tagmaps (snd (Fire hook later (Fire_each hook (earlier # between) w))) r
             \<and> dom (tagmaps (snd (Fire hook earlier w)) r) \<subseteq> dom (Tags p)
             \<and> ''level'' \<in> dom (tagmaps (snd (Fire hook earlier w)) r)
             \<and> (\<forall>k s. (k = ''logger'' \<or> k = ''server_name'')
                        \<and> Data earlier k = Some (StringV s) \<longrightarrow>
                      k \<in> dom (Tags p)
                      \<and> ((\<forall>e \<in> set (between @ [later]). \<forall>s'. Data e k \<noteq> Some (StringV s')) \<longrightarrow>
                           Tags p k = Some s))"
proof -
  define w1 where "w1 = snd (Fire hook earlier w)"
  define w2 where "w2 = Fire_each hook between w1"
  define w3 where "w3 = snd (Fire hook later w2)"
  define m where "m = Fire_tags later (tagmaps w2 r)"
  have w2: "Fire_each hook (earlier # between) w = w2"
    by (simp add: w2_def w1_def)
  have w3: "w3 = Fire_each hook (between @ [later]) w1"
    by (simp add: w3_def w2_def Fire_each_append)
  have m3: "tagmaps w3 r = m"
    by (simp add: w3_def m_def Fire_tagmaps [OF assms])
  have m1: "tagmaps w1 r = Fire_tags earlier (tagmaps w r)"
    by (simp add: w1_def Fire_tagmaps [OF assms])
  have sub: "dom (tagmaps w1 r) \<subseteq> dom m"
    using Fire_each_dom [OF assms, of w1 "between @ [later]"] by (simp add: w3 [symmetric] m3)
  have level: "''level'' \<in> dom (tagmaps w1 r)"
    by (simp add: m1 Fire_tags_level dom_def)
  have field: "k \<in> dom m \<and> ((\<forall>e \<in> set (between @ [later]). \<forall>s'. Data e k \<noteq> Some (StringV s')) \<longrightarrow>
                           m k = Some s)"
    if k: "k = ''logger'' \<or> k = ''server_name''" and d: "Data earlier k = Some (StringV s)" for k s
  proof
    have 1: "tagmaps w1 r k = Some s"
      by (simp add: m1 Fire_tags_field [OF k d])
    then show "k \<in> dom m"
      using sub by blast
    show "(\<forall>e \<in> set (between @ [later]). \<forall>s'. Data e k \<noteq> Some (StringV s')) \<longrightarrow> m k = Some s"
    proof
      assume "\<forall>e \<in> set (between @ [later]). \<forall>s'. Data e k \<noteq> Some (StringV s')"
      then have no: "\<forall>e \<in> set (between @ [later]). \<not> snd (getField (Data e) k)"
        by (simp add: getField_snd)
      have "k \<noteq> ''level''"
        using k by auto
      from Fire_each_keep [OF assms this no, of w1] show "m k = Some s"
        by (simp add: w3 [symmetric] m3 1)
    qed
  qed
  have "calls w3 = calls w2 @ [WriteCall \<lparr>Points = [\<lparr>Measurement = ''logrus'',
                        Tags = m, Fields = Fire_fields later,
                        Time = clock w2, Precision = ''s''\<rparr>],
                      BatchDatabase = database hook, RetentionPolicy = ''default''\<rparr>]"
    by (simp add: w3_def m_def Fire_calls [OF assms])
  then show ?thesis
    unfolding w2 w3_def [symmetric] w1_def [symmetric]
    using m3 sub level field by (intro exI [of _ "\<lparr>Measurement = ''logrus'',
                        Tags = m, Fields = Fire_fields later,
                        Time = clock w2, Precision = ''s''\<rparr>"]) simp
qed

theorem Fire_tags_persist_witness:
  "tags hook0 = Some 0 \<and> client hook0 = Some client_ok
   \<and> Data entry0 ''logger'' = Some (StringV ''diskmon'')
   \<and> Data entry_plain ''logger'' = None
   \<and> (\<exists>p. calls (snd (Fire hook0 entry_plain (Fire_each hook0 [entry0] world0))) =
               calls (Fire_each hook0 [entry0] world0)
                 @ [WriteCall \<lparr>Points = [p], BatchDatabase = database hook0,
                               RetentionPolicy = ''default''\<rparr>]
          \<and> Tags p ''logger'' = Some ''diskmon'')"
proof -
  have h: "tags hook0 = Some 0" "client hook0 = Some client_ok"
    by (simp_all add: hook0_def)
  have d: "Data entry0 ''logger'' = Some (StringV ''diskmon'')"
    by (simp add: entry0_def)
  have n: "Data entry_plain ''logger'' = None"
    by (simp add: entry_plain_def)
  from Fire_tags_persist [OF h, of entry_plain entry0 "[]" world0]
  obtain p where p: "calls (snd (Fire hook0 entry_plain (Fire_each hook0 [entry0] world0))) =
               calls (Fire_each hook0 [entry0] world0)
                 @ [WriteCall \<lparr>Points = [p], BatchDatabase = database hook0,
                               RetentionPolicy = ''default''\<rparr>]"
    and keep: "\<forall>k s. (k = ''logger'' \<or> k = ''server_name'')
                        \<and> Data entry0 k = Some (StringV s) \<longrightarrow>
                      k \<in> dom (Tags p)
                      \<and> ((\<forall>e \<in> set ([] @ [entry_plain]). \<forall>s'. Data e k \<noteq> Some (StringV s')) \<longrightarrow>
                           Tags p k = Some s)"
    by blast
  from keep d n have "Tags p ''logger'' = Some ''diskmon''"
    by simp
  with p h d n show ?thesis
    by blast
qed

section \<open>Lemmas on the queries\<close>

lemma queryDB_Some:
  assumes "client hook = Some c"
  shows "queryDB hook cmd w =
           (Return (queryDB_result
                      (Query_result c (calls w) \<lparr>Command = cmd, Database = database hook\<rparr>)),
            w\<lparr>calls := calls w @ [QueryCall \<lparr>Command = cmd, Database = database hook\<rparr>]\<rparr>)"
  by (simp add: queryDB_def Client_Query_def assms queryDB_result_def
      split: sum.split option.split)

lemma queryDB_None: "client hook = None \<Longrightarrow> queryDB hook cmd w = (Panic, w)"
  by (simp add: queryDB_def Client_Query_def)

lemma databaseExists_Some:
  assumes "client hook = Some c"
  shows "databaseExists hook w =
           (Return (exists_verdict (database hook)
                      (queryDB_result (Query_result c (calls w) (show_query hook)))),
            w\<lparr>calls := calls w @ [QueryCall (show_query hook)]\<rparr>)"
  by (simp add: databaseExists_def queryDB_Some [OF assms] exists_verdict_def show_query_def
      split: sum.split list.split)

lemma databaseExists_None: "client hook = None \<Longrightarrow> databaseExists hook w = (Panic, w)"
  by (simp add: databaseExists_def queryDB_None)

lemma scan_row_iff: "scan_row db cells \<longleftrightarrow> (\<exists>cell \<in> set cells. cell = StringV db)"
  by (induction cells) (auto split: val.split)

lemma scan_values_iff:
  "scan_values db rows \<longleftrightarrow> (\<exists>value \<in> set rows. \<exists>cell \<in> set value. cell = StringV db)"
  by (induction rows) (simp_all add: scan_row_iff)

lemma exists_verdict_None:
  "exists_verdict db res = None \<longleftrightarrow> (\<exists>results. res = Inr results \<and> names_database db results)"
  by (simp add: exists_verdict_def names_database_def errors_New_def scan_values_iff
      split: sum.split list.split)

lemma exists_verdict_Inl: "exists_verdict db (Inl err) = Some err"
  by (simp add: exists_verdict_def)

lemma exists_verdict_Inr:
  "exists_verdict db (Inr results) =
     (if results = [] then Some (errors_New ''Missing results from InfluxDB query response'')
      else if Series (hd results) = []
        then Some (errors_New ''Missing series from InfluxDB query response'')
      else if names_database db results then None
      else Some (errors_New ''No database exists''))"
  by (simp add: exists_verdict_def names_database_def scan_values_iff
      split: list.split)

lemma autocreateDatabase_Some:
  assumes "client hook = Some c"
  shows "autocreateDatabase hook w =
           (if exists_verdict (database hook)
                 (queryDB_result (Query_result c (calls w) (show_query hook))) = None
            then (Return None, w\<lparr>calls := calls w @ [QueryCall (show_query hook)]\<rparr>)
            else (Return (case queryDB_result
                                 (Query_result c (calls w @ [QueryCall (show_query hook)])
                                    (create_query hook)) of
                            Inl err \<Rightarrow> Some err
                          | Inr _ \<Rightarrow> None),
                  w\<lparr>calls := calls w @ [QueryCall (show_query hook), QueryCall (create_query hook)]\<rparr>))"
proof (cases "exists_verdict (database hook)
                 (queryDB_result (Query_result c (calls w) (show_query hook)))")
  case None
  then show ?thesis
    by (simp add: autocreateDatabase_def databaseExists_Some [OF assms])
next
  case (Some e)
  then show ?thesis
    by (simp add: autocreateDatabase_def databaseExists_Some [OF assms] queryDB_Some [OF assms]
        create_query_def split: sum.split)
qed

lemma autocreateDatabase_None: "client hook = None \<Longrightarrow> autocreateDatabase hook w = (Panic, w)"
  by (simp add: autocreateDatabase_def databaseExists_None)

lemma autocreateDatabase_tagmaps:
  "tagmaps (snd (autocreateDatabase hook w)) = tagmaps w"
  by (cases "client hook")
     (simp_all add: autocreateDatabase_None autocreateDatabase_Some)

lemma exists_verdict_Inr_Some:
  "\<not> names_database db results \<Longrightarrow>
     \<exists>text. exists_verdict db (Inr results) = Some (errors_New text)"
  by (auto simp: exists_verdict_def names_database_def scan_values_iff split: list.split)

section \<open>The claims on the existence check and the creation of the database\<close>

lemma databaseExists_fst:
  assumes "client hook = Some c"
  shows "fst (databaseExists hook w) =
           Return (exists_verdict (database hook)
                     (queryDB_result (Query_result c (calls w) (show_query hook))))"
  by (simp add: databaseExists_Some [OF assms])

lemma databases_response_names:
  "names_database db (Results (databases_response names)) \<longleftrightarrow> db \<in> set names"
  by (auto simp: names_database_def databases_response_def)

text \<open>
  C5, as the code has it. The check returns nil exactly when the query
  \<^verbatim>\<open>SHOW DATABASES\<close> succeeds and some string-typed cell among the value rows of the first
  result's first series equals the database name. When the query fails (the call
  returns an error, or the response carries one) the check returns that error itself,
  of whatever type the client gave it. When there are no results, or the first result
  has no series, or no cell matches, it returns an error made by \<^verbatim>\<open>errors.New\<close>: these
  three have the same type and differ only in their text.
\<close>

theorem databaseExists_verdict:
  assumes "client hook = Some c"
  shows "(fst (databaseExists hook w) = Return None \<longleftrightarrow>
            (\<exists>response. Query_result c (calls w) (show_query hook) = Inr response
                \<and> Response_Error response = None
                \<and> names_database (database hook) (Results response)))
         \<and> (\<forall>err. Query_result c (calls w) (show_query hook) = Inl err \<longrightarrow>
                fst (databaseExists hook w) = Return (Some err))
         \<and> (\<forall>response err. Query_result c (calls w) (show_query hook) = Inr response
                \<and> Response_Error response = Some err \<longrightarrow>
                fst (databaseExists hook w) = Return (Some err))
         \<and> (\<forall>response. Query_result c (calls w) (show_query hook) = Inr response
                \<and> Response_Error response = None
                \<and> \<not> names_database (database hook) (Results response) \<longrightarrow>
                (\<exists>e. fst (databaseExists hook w) = Return (Some e)
                     \<and> dynamic_type e = ''*errors.errorString''))"
proof (cases "Query_result c (calls w) (show_query hook)")
  case (Inl err)
  then show ?thesis
    by (simp add: databaseExists_fst [OF assms] queryDB_result_def exists_verdict_Inl)
next
  case (Inr response)
  show ?thesis
  proof (cases "Response_Error response")
    case None
    have fst: "fst (databaseExists hook w) =
                 Return (exists_verdict (database hook) (Inr (Results response)))"
      using Inr None by (simp add: databaseExists_fst [OF assms] queryDB_result_def)
    have "\<exists>e. fst (databaseExists hook w) = Return (Some e)
                     \<and> dynamic_type e = ''*errors.errorString''"
      if "\<not> names_database (database hook) (Results response)"
      using exists_verdict_Inr_Some [OF that] by (auto simp: fst errors_New_def)
    then show ?thesis
      using Inr None by (simp add: fst exists_verdict_None)
  next
    case (Some e)
    with Inr show ?thesis
      by (simp add: databaseExists_fst [OF assms] queryDB_result_def exists_verdict_Inl)
  qed
qed

theorem databaseExists_verdict_witness:
  "client hook0 = Some client_ok
   \<and> fst (databaseExists hook0 world0) = Return None
   \<and> client hook_failing = Some client_failing
   \<and> fst (databaseExists hook_failing world0) =
       Return (Some (GoError ''*url.Error'' ''connection refused''))
   \<and> client hook_erring = Some client_erring
   \<and> fst (databaseExists hook_erring world0) =
       Return (Some (GoError ''*errors.errorString'' ''not authorized''))
   \<and> client hook_metrics = Some client_ok
   \<and> (\<exists>e. fst (databaseExists hook_metrics world0) = Return (Some e)
          \<and> dynamic_type e = ''*errors.errorString'')"
proof -
  have h0: "client hook0 = Some client_ok" and hf: "client hook_failing = Some client_failing"
    and he: "client hook_erring = Some client_erring" and hm: "client hook_metrics = Some client_ok"
    by (simp_all add: hook0_def hook_failing_def hook_erring_def hook_metrics_def)
  have q0: "Query_result client_ok hist q = Inr (databases_response [''_internal'', ''logrus''])"
    and qf: "Query_result client_failing hist q = Inl (GoError ''*url.Error'' ''connection refused'')"
    and qe: "Query_result client_erring hist q =
               Inr \<lparr>Results = [], Response_Error = Some (GoError ''*errors.errorString'' ''not authorized'')\<rparr>"
    for hist q
    by (simp_all add: client_ok_def client_failing_def client_erring_def)
  have r0: "Response_Error (databases_response names) = None" for names
    by (simp add: databases_response_def)
  have d: "database hook0 = ''logrus''" "database hook_metrics = ''metrics''"
    by (simp_all add: hook0_def hook_metrics_def)
  have a: "fst (databaseExists hook0 world0) = Return None"
    using databaseExists_verdict [OF h0, of world0] q0 r0
    by (simp add: d databases_response_names)
  have b: "fst (databaseExists hook_failing world0) =
             Return (Some (GoError ''*url.Error'' ''connection refused''))"
    using databaseExists_verdict [OF hf, of world0] qf by simp
  have c: "fst (databaseExists hook_erring world0) =
             Return (Some (GoError ''*errors.errorString'' ''not authorized''))"
    using databaseExists_verdict [OF he, of world0] qe by simp
  have e: "\<exists>e. fst (databaseExists hook_metrics world0) = Return (Some e)
          \<and> dynamic_type e = ''*errors.errorString''"
    using databaseExists_verdict [OF hm, of world0] q0 r0
    by (simp add: d databases_response_names)
  show ?thesis using h0 hf he hm a b c e by simp
qed

text \<open>
  C5 as the specification states it fails: a failed query and a response without a
  match give errors of different types. The first client cannot connect, and the check
  returns the client's \<^verbatim>\<open>*url.Error\<close>; the second lists no database \<open>metrics\<close>, and the
  check returns an \<^verbatim>\<open>*errors.errorString\<close>.
\<close>

theorem databaseExists_error_type_counterexample:
  "fst (databaseExists hook_failing world0) =
     Return (Some (GoError ''*url.Error'' ''connection refused''))
   \<and> fst (databaseExists hook_metrics world0) =
     Return (Some (GoError ''*errors.errorString'' ''No database exists''))
   \<and> dynamic_type (GoError ''*url.Error'' ''connection refused'')
       \<noteq> dynamic_type (GoError ''*errors.errorString'' ''No database exists'')"
proof -
  have hf: "client hook_failing = Some client_failing" and hm: "client hook_metrics = Some client_ok"
    by (simp_all add: hook_failing_def hook_metrics_def)
  have a: "fst (databaseExists hook_failing world0) =
     Return (Some (GoError ''*url.Error'' ''connection refused''))"
    by (simp add: databaseExists_fst [OF hf] client_failing_def queryDB_result_def
        exists_verdict_Inl)
  have d: "database hook_metrics = ''metrics''"
    by (simp add: hook_metrics_def)
  have "\<not> names_database ''metrics'' (Results (databases_response [''_internal'', ''logrus'']))"
    by (simp add: databases_response_names)
  moreover have "Results (databases_response [''_internal'', ''logrus'']) \<noteq> []"
    "Series (hd (Results (databases_response [''_internal'', ''logrus'']))) \<noteq> []"
    "Response_Error (databases_response [''_internal'', ''logrus'']) = None"
    by (simp_all add: databases_response_def)
  ultimately have b: "fst (databaseExists hook_metrics world0) =
     Return (Some (GoError ''*errors.errorString'' ''No database exists''))"
    using d by (simp add: databaseExists_fst [OF hm] client_ok_def queryDB_result_def
        exists_verdict_Inr errors_New_def)
  show ?thesis using a b by simp
qed

text \<open>
  C6. \<open>autocreateDatabase\<close> first runs the existence check. When the check succeeds it
  makes no further request and returns nil. When the check fails it issues one more
  query, the statement that creates the configured database, and returns nil when that
  statement succeeds and the statement's error otherwise.
\<close>

theorem autocreateDatabase_creates_once:
  assumes "client hook = Some c"
  shows "Command (create_query hook) = ''create database '' @ database hook
         \<and> (fst (databaseExists hook w) = Return None \<longrightarrow>
              fst (autocreateDatabase hook w) = Return None
              \<and> calls (snd (autocreateDatabase hook w)) = calls w @ [QueryCall (show_query hook)])
         \<and> (fst (databaseExists hook w) \<noteq> Return None \<longrightarrow>
              calls (snd (autocreateDatabase hook w)) =
                calls w @ [QueryCall (show_query hook), QueryCall (create_query hook)]
              \<and> fst (autocreateDatabase hook w) =
                  Return (case Query_result c (calls w @ [QueryCall (show_query hook)])
                                 (create_query hook) of
                            Inl err \<Rightarrow> Some err
                          | Inr response \<Rightarrow> Response_Error response))"
proof -
  have "(case queryDB_result answer of Inl err \<Rightarrow> Some err | Inr _ \<Rightarrow> None) =
          (case answer of Inl err \<Rightarrow> Some err | Inr response \<Rightarrow> Response_Error response)"
    for answer
    by (cases answer) (simp_all add: queryDB_result_def split: option.split)
  then show ?thesis
    by (simp add: databaseExists_fst [OF assms] autocreateDatabase_Some [OF assms]
        create_query_def)
qed

theorem autocreateDatabase_creates_once_witness:
  "client hook0 = Some client_ok
   \<and> fst (databaseExists hook0 world0) = Return None
   \<and> fst (autocreateDatabase hook0 world0) = Return None
   \<and> calls (snd (autocreateDatabase hook0 world0)) =
       [QueryCall \<lparr>Command = ''SHOW DATABASES'', Database = ''logrus''\<rparr>]
   \<and> client hook_metrics = Some client_ok
   \<and> fst (databaseExists hook_metrics world0) \<noteq> Return None
   \<and> fst (autocreateDatabase hook_metrics world0) = Return None
   \<and> calls (snd (autocreateDatabase hook_metrics world0)) =
       [QueryCall \<lparr>Command = ''SHOW DATABASES'', Database = ''metrics''\<rparr>,
        QueryCall \<lparr>Command = ''create database metrics'', Database = ''metrics''\<rparr>]
   \<and> client hook_failing = Some client_failing
   \<and> fst (databaseExists hook_failing world0) \<noteq> Return None
   \<and> fst (autocreateDatabase hook_failing world0) =
       Return (Some (GoError ''*url.Error'' ''connection refused''))"
proof -
  have h0: "client hook0 = Some client_ok" and hf: "client hook_failing = Some client_failing"
    and hm: "client hook_metrics = Some client_ok"
    by (simp_all add: hook0_def hook_failing_def hook_metrics_def)
  have q0: "Query_result client_ok hist q = Inr (databases_response [''_internal'', ''logrus''])"
    and qf: "Query_result client_failing hist q = Inl (GoError ''*url.Error'' ''connection refused'')"
    for hist q
    by (simp_all add: client_ok_def client_failing_def)
  have r0: "Response_Error (databases_response names) = None"
    "Results (databases_response names) \<noteq> []"
    "Series (hd (Results (databases_response names))) \<noteq> []" for names
    by (simp_all add: databases_response_def)
  have d: "database hook0 = ''logrus''" "database hook_metrics = ''metrics''"
    by (simp_all add: hook0_def hook_metrics_def)
  have w: "calls world0 = []"
    by (simp add: world0_def)
  have e0: "fst (databaseExists hook0 world0) = Return None"
    by (simp add: databaseExists_fst [OF h0] q0 queryDB_result_def r0 exists_verdict_Inr d
        databases_response_names)
  have em: "fst (databaseExists hook_metrics world0) \<noteq> Return None"
    by (simp add: databaseExists_fst [OF hm] q0 queryDB_result_def r0 exists_verdict_Inr d
        databases_response_names)
  have ef: "fst (databaseExists hook_failing world0) \<noteq> Return None"
    by (simp add: databaseExists_fst [OF hf] qf queryDB_result_def exists_verdict_Inl)
  have a: "fst (autocreateDatabase hook0 world0) = Return None
           \<and> calls (snd (autocreateDatabase hook0 world0)) =
       [QueryCall \<lparr>Command = ''SHOW DATABASES'', Database = ''logrus''\<rparr>]"
    using autocreateDatabase_creates_once [OF h0, of world0] e0
    by (simp add: w show_query_def d)
  have b: "fst (autocreateDatabase hook_metrics world0) = Return None
           \<and> calls (snd (autocreateDatabase hook_metrics world0)) =
       [QueryCall \<lparr>Command = ''SHOW DATABASES'', Database = ''metrics''\<rparr>,
        QueryCall \<lparr>Command = ''create database metrics'', Database = ''metrics''\<rparr>]"
    using autocreateDatabase_creates_once [OF hm, of world0] em
    by (simp add: w q0 r0 show_query_def create_query_def d)
  have c: "fst (autocreateDatabase hook_failing world0) =
       Return (Some (GoError ''*url.Error'' ''connection refused''))"
    using autocreateDatabase_creates_once [OF hf, of world0] ef
    by (simp add: qf)
  show ?thesis using h0 hm hf e0 em ef a b c by simp
qed

section \<open>Lemmas on the constructors\<close>

lemma default_args_eq:
  "default_args database0 tags0 w =
     (if database0 = [] then DefaultDatabase else database0,
      case tags0 of None \<Rightarrow> Some (next_ref w) | Some r \<Rightarrow> Some r,
      case tags0 of
        None \<Rightarrow> w\<lparr>tagmaps := (tagmaps w)(next_ref w := Map.empty), next_ref := Suc (next_ref w)\<rparr>
      | Some r \<Rightarrow> w)"
  by (cases tags0) (simp_all add: default_args_def make_map_def)

lemma NewInfluxDBHook_unfold:
  "NewInfluxDBHook e hostname database0 tags0 w =
     (case default_args database0 tags0 w of
        (database1, tags1, w1) \<Rightarrow> connect_hook e hostname database1 tags1 w1)"
  unfolding NewInfluxDBHook_def default_args_def connect_hook_def Let_def
  by (simp only: split_beta fst_conv snd_conv)

lemma NewWithClientInfulxDBHook_unfold:
  "NewWithClientInfulxDBHook e client0 database0 tags0 w =
     (case default_args database0 tags0 w of
        (database1, tags1, w1) \<Rightarrow>
          if client0 = None
          then NewInfluxDBHook e DefaultHost database1 tags1 w1
          else (Return (Inr \<lparr>client = client0, database = database1, tags = tags1\<rparr>), w1))"
  unfolding NewWithClientInfulxDBHook_def default_args_def Let_def
  by (simp only: split_beta fst_conv snd_conv)

lemma connect_hook_Inr:
  assumes "connect_hook e hostname database1 tags1 w1 = (Return (Inr hook), w')"
  shows "database hook = database1 \<and> tags hook = tags1 \<and> (\<exists>c. client hook = Some c)
         \<and> tagmaps w' = tagmaps w1"
proof -
  from assms obtain cl w2 where
    hook: "hook = \<lparr>client = Some cl, database = database1, tags = tags1\<rparr>"
    and ping: "w2 = w1\<lparr>calls := calls w1 @ [PingCall]\<rparr>"
    and auto: "autocreateDatabase hook w2 = (Return None, w')"
    by (auto simp: connect_hook_def Let_def Client_Ping_def
        split: sum.splits prod.splits outcome.splits option.splits)
  from auto have "tagmaps w' = tagmaps w2"
    using autocreateDatabase_tagmaps [of hook w2] by simp
  with hook ping show ?thesis
    by simp
qed

lemma default_args_again:
  assumes "default_args database0 tags0 w = (database1, tags1, w1)"
  shows "default_args database1 tags1 w1 = (database1, tags1, w1)"
  using assms by (cases tags0) (auto simp: default_args_eq DefaultDatabase_def split: if_splits)

lemma constructors_Inr:
  assumes "NewInfluxDBHook e hostname database0 tags0 w = (Return (Inr hook), w')
           \<or> NewWithClientInfulxDBHook e client0 database0 tags0 w = (Return (Inr hook), w')"
    and "default_args database0 tags0 w = (database1, tags1, w1)"
  shows "database hook = database1 \<and> tags hook = tags1 \<and> (\<exists>c. client hook = Some c)
         \<and> tagmaps w' = tagmaps w1"
  using assms(1)
proof
  assume "NewInfluxDBHook e hostname database0 tags0 w = (Return (Inr hook), w')"
  then show ?thesis
    using connect_hook_Inr [of e hostname database1 tags1 w1 hook w']
    by (simp add: NewInfluxDBHook_unfold assms(2))
next
  assume new: "NewWithClientInfulxDBHook e client0 database0 tags0 w = (Return (Inr hook), w')"
  show ?thesis
  proof (cases client0)
    case None
    with new have "connect_hook e DefaultHost database1 tags1 w1 = (Return (Inr hook), w')"
      by (simp add: NewWithClientInfulxDBHook_unfold assms(2) NewInfluxDBHook_unfold
          default_args_again [OF assms(2)])
    then show ?thesis
      by (rule connect_hook_Inr)
  next
    case (Some c)
    with new show ?thesis
      by (auto simp: NewWithClientInfulxDBHook_unfold assms(2))
  qed
qed

lemma DefaultPort_decimal: "decimal DefaultPort = ''8086''"
  by (simp add: DefaultPort_def decimal.simps [of 8086] decimal.simps [of 808]
      decimal.simps [of 80] decimal.simps [of 8] digit_def)

lemma connect_hook_success:
  assumes "url_Parse e (''http://'' @ hostname @ '':'' @ decimal DefaultPort) = Inr u"
    and "NewClient e \<lparr>URL = u, Username = Getenv e ''INFLUX_USER'',
                      Password = Getenv e ''INFLUX_PWD'', Timeout = 100 * Millisecond\<rparr> = Inr cl"
    and "Ping_result cl (calls w1) = None"
    and "fst (autocreateDatabase \<lparr>client = Some cl, database = d, tags = t\<rparr>
                (w1\<lparr>calls := calls w1 @ [PingCall]\<rparr>)) = Return None"
  shows "fst (connect_hook e hostname d t w1) =
           Return (Inr \<lparr>client = Some cl, database = d, tags = t\<rparr>)"
proof -
  obtain out w3 where a: "autocreateDatabase \<lparr>client = Some cl, database = d, tags = t\<rparr>
                (w1\<lparr>calls := calls w1 @ [PingCall]\<rparr>) = (out, w3)"
    by (cases "autocreateDatabase \<lparr>client = Some cl, database = d, tags = t\<rparr>
                (w1\<lparr>calls := calls w1 @ [PingCall]\<rparr>)")
  with assms(4) have out: "out = Return None"
    by simp
  show ?thesis
    using assms(1,2,3) by (simp add: connect_hook_def Client_Ping_def a out)
qed

lemma autocreateDatabase_client_ok:
  assumes "client hook = Some client_ok"
  shows "fst (autocreateDatabase hook w) = Return None"
proof -
  have "queryDB_result (Query_result client_ok hist q) =
          Inr (Results (databases_response [''_internal'', ''logrus'']))" for hist q
    by (simp add: client_ok_def queryDB_result_def databases_response_def)
  then show ?thesis
    by (simp add: autocreateDatabase_Some [OF assms])
qed

lemma connect_hook_env0:
  "fst (connect_hook env0 hostname d t w1) =
     Return (Inr \<lparr>client = Some client_ok, database = d, tags = t\<rparr>)"
proof (rule connect_hook_success)
  show "url_Parse env0 (''http://'' @ hostname @ '':'' @ decimal DefaultPort) =
          Inr (''http://'' @ hostname @ '':'' @ decimal DefaultPort)"
    by (simp add: env0_def)
  show "NewClient env0 \<lparr>URL = ''http://'' @ hostname @ '':'' @ decimal DefaultPort,
                      Username = Getenv env0 ''INFLUX_USER'',
                      Password = Getenv env0 ''INFLUX_PWD'', Timeout = 100 * Millisecond\<rparr> =
          Inr client_ok"
    by (simp add: env0_def)
  show "Ping_result client_ok (calls w1) = None"
    by (simp add: client_ok_def)
  show "fst (autocreateDatabase \<lparr>client = Some client_ok, database = d, tags = t\<rparr>
                (w1\<lparr>calls := calls w1 @ [PingCall]\<rparr>)) = Return None"
    by (rule autocreateDatabase_client_ok) simp
qed

section \<open>The claims on the constructors\<close>

text \<open>
  C7. Both constructors substitute defaults. Whenever \<open>NewInfluxDBHook\<close> or
  \<open>NewWithClientInfulxDBHook\<close> returns a hook: if the database argument is the empty
  string, the hook's database is \<open>logrus\<close>; if the tags argument is nil, the hook's tag
  map is a map that is empty when the constructor returns.
\<close>

theorem constructors_substitute_defaults:
  assumes "NewInfluxDBHook e hostname database0 tags0 w = (Return (Inr hook), w')
           \<or> NewWithClientInfulxDBHook e client0 database0 tags0 w = (Return (Inr hook), w')"
  shows "(database0 = [] \<longrightarrow> database hook = ''logrus'')
         \<and> (tags0 = None \<longrightarrow> (\<exists>r. tags hook = Some r \<and> tagmaps w' r = Map.empty))"
proof -
  obtain database1 tags1 w1 where d: "default_args database0 tags0 w = (database1, tags1, w1)"
    by (cases "default_args database0 tags0 w")
  from constructors_Inr [OF assms d]
  have h: "database hook = database1" "tags hook = tags1" "tagmaps w' = tagmaps w1"
    by simp_all
  from d have "database0 = [] \<longrightarrow> database1 = ''logrus''"
    by (auto simp: default_args_eq DefaultDatabase_def)
  moreover from d have "tags0 = None \<longrightarrow> tags1 = Some (next_ref w) \<and> tagmaps w1 (next_ref w) = Map.empty"
    by (auto simp: default_args_eq)
  ultimately show ?thesis
    using h by simp
qed

theorem constructors_substitute_defaults_witness:
  "fst (NewInfluxDBHook env0 ''localhost'' [] None world0) = Return (Inr hook_new)
   \<and> fst (NewWithClientInfulxDBHook env0 (Some client_ok) [] None world0) = Return (Inr hook_new)
   \<and> fst (NewWithClientInfulxDBHook env0 None [] None world0) = Return (Inr hook_new)
   \<and> database hook_new = ''logrus''
   \<and> tags hook_new = Some 1
   \<and> tagmaps (snd (NewInfluxDBHook env0 ''localhost'' [] None world0)) 1 = Map.empty
   \<and> tagmaps (snd (NewWithClientInfulxDBHook env0 (Some client_ok) [] None world0)) 1 = Map.empty"
proof -
  have d: "default_args [] None world0 =
             (''logrus'', Some 1,
              world0\<lparr>tagmaps := (tagmaps world0)(1 := Map.empty), next_ref := 2\<rparr>)"
    by (simp add: default_args_eq DefaultDatabase_def world0_def)
  have a: "fst (NewInfluxDBHook env0 ''localhost'' [] None world0) = Return (Inr hook_new)"
    by (simp add: NewInfluxDBHook_unfold d connect_hook_env0 hook_new_def)
  have b: "fst (NewWithClientInfulxDBHook env0 (Some client_ok) [] None world0) =
             Return (Inr hook_new)"
    by (simp add: NewWithClientInfulxDBHook_unfold d hook_new_def)
  have "default_args ''logrus'' (Some 1) w = (''logrus'', Some 1, w)" for w
    by (simp add: default_args_eq)
  then have c: "fst (NewWithClientInfulxDBHook env0 None [] None world0) = Return (Inr hook_new)"
    by (simp add: NewWithClientInfulxDBHook_unfold d NewInfluxDBHook_unfold connect_hook_env0
        hook_new_def)
  have t: "tags hook_new = Some 1"
    by (simp add: hook_new_def)
  from a have "NewInfluxDBHook env0 ''localhost'' [] None world0 =
                 (Return (Inr hook_new), snd (NewInfluxDBHook env0 ''localhost'' [] None world0))"
    by (cases "NewInfluxDBHook env0 ''localhost'' [] None world0") simp
  from constructors_substitute_defaults [OF disjI1, OF this]
  have e: "database hook_new = ''logrus''"
    "tagmaps (snd (NewInfluxDBHook env0 ''localhost'' [] None world0)) 1 = Map.empty"
    using t by simp_all
  from b have "NewWithClientInfulxDBHook env0 (Some client_ok) [] None world0 =
                 (Return (Inr hook_new),
                  snd (NewWithClientInfulxDBHook env0 (Some client_ok) [] None world0))"
    by (cases "NewWithClientInfulxDBHook env0 (Some client_ok) [] None world0") simp
  from constructors_substitute_defaults [OF disjI2, OF this]
  have f: "tagmaps (snd (NewWithClientInfulxDBHook env0 (Some client_ok) [] None world0)) 1 =
             Map.empty"
    using t by simp
  show ?thesis using a b c t e f by simp
qed

text \<open>
  C10. A hook is built on a tag map that already holds a \<open>level\<close>. Fire overwrites that
  default: the written point's tag \<open>level\<close> is the event's level string, and not the
  construction-time value when the two differ. The same holds for \<open>logger\<close> and
  \<open>server_name\<close> when the event supplies a string there, whatever the map held.
\<close>

theorem Fire_overrides_default_tags:
  assumes "NewInfluxDBHook e hostname database0 (Some r) w0 = (Return (Inr hook), w)
           \<or> NewWithClientInfulxDBHook e client0 database0 (Some r) w0 = (Return (Inr hook), w)"
    and "tagmaps w0 r ''level'' = Some old"
  shows "\<exists>p. calls (snd (Fire hook entry w)) =
               calls w @ [WriteCall \<lparr>Points = [p], BatchDatabase = database hook,
                                     RetentionPolicy = ''default''\<rparr>]
             \<and> Tags p ''level'' = Some (Level_String (Level entry))
             \<and> (old \<noteq> Level_String (Level entry) \<longrightarrow> Tags p ''level'' \<noteq> Some old)
             \<and> (\<forall>k s. (k = ''logger'' \<or> k = ''server_name'')
                        \<and> Data entry k = Some (StringV s) \<longrightarrow> Tags p k = Some s)"
proof -
  obtain database1 where d: "default_args database0 (Some r) w0 = (database1, Some r, w0)"
    by (simp add: default_args_eq)
  from constructors_Inr [OF assms(1) d]
  obtain c where h: "tags hook = Some r" "client hook = Some c"
    by blast
  show ?thesis
    by (simp add: Fire_calls [OF h] Fire_tags_level Fire_tags_field)
qed

theorem Fire_overrides_default_tags_witness:
  "NewWithClientInfulxDBHook env0 (Some client_ok) ''logrus'' (Some 0) world_tagged =
     (Return (Inr hook0), world_tagged)
   \<and> tagmaps world_tagged 0 ''level'' = Some ''all''
   \<and> tagmaps world_tagged 0 ''logger'' = Some ''app''
   \<and> Data entry0 ''logger'' = Some (StringV ''diskmon'')
   \<and> (\<exists>p. calls (snd (Fire hook0 entry0 world_tagged)) =
               calls world_tagged @ [WriteCall \<lparr>Points = [p], BatchDatabase = database hook0,
                                     RetentionPolicy = ''default''\<rparr>]
          \<and> Tags p ''level'' = Some ''info''
          \<and> Tags p ''logger'' = Some ''diskmon'')"
proof -
  have n: "NewWithClientInfulxDBHook env0 (Some client_ok) ''logrus'' (Some 0) world_tagged =
     (Return (Inr hook0), world_tagged)"
    by (simp add: NewWithClientInfulxDBHook_unfold default_args_eq hook0_def)
  have t: "tagmaps world_tagged 0 ''level'' = Some ''all''"
    "tagmaps world_tagged 0 ''logger'' = Some ''app''"
    by (simp_all add: world_tagged_def)
  have d: "Data entry0 ''logger'' = Some (StringV ''diskmon'')" "Level entry0 = InfoLevel"
    by (simp_all add: entry0_def)
  from Fire_overrides_default_tags [OF disjI2, OF n t(1), of entry0]
  obtain p where p: "calls (snd (Fire hook0 entry0 world_tagged)) =
               calls world_tagged @ [WriteCall \<lparr>Points = [p], BatchDatabase = database hook0,
                                     RetentionPolicy = ''default''\<rparr>]"
    and l: "Tags p ''level'' = Some (Level_String (Level entry0))"
    and f: "\<forall>k s. (k = ''logger'' \<or> k = ''server_name'')
                        \<and> Data entry0 k = Some (StringV s) \<longrightarrow> Tags p k = Some s"
    by blast
  from f d(1) have "Tags p ''logger'' = Some ''diskmon''"
    by simp
  moreover from l have "Tags p ''level'' = Some ''info''"
    by (simp add: d(2))
  ultimately show ?thesis
    using n t d(1) p by blast
qed

end
